theory Spec2Isabelle
  imports Main "HOL-Library.Sublist"
begin

section \<open>Observable effects and exceptions\<close>

text \<open>
  The program is \<^verbatim>\<open>src/voice_assistant.py\<close>: an asyncio program over the LiveKit SDK.
  Every effect the source performs is recorded as an event, in program order:
  \<^verbatim>\<open>print(...)\<close>, \<^verbatim>\<open>await asyncio.sleep(n)\<close> (recorded when the call is made) and
  the SDK calls of \<^verbatim>\<open>entrypoint\<close>.
\<close>

datatype event =
    Print string
  | Sleep nat
  | CtxConnect
  | NewVisionAssistant string
  | NewAssistantFunction
  | VADLoad
  | NewSTT
  | NewLLM string
  | NewTTS string
  | NewAgentSession
  | SessionStart
  | GenerateReply string
  | CreateTask
  | TaskCancel
  | AwaitTask

text \<open>
  Python's exception hierarchy as far as the source depends on it:
  \<^verbatim>\<open>asyncio.CancelledError\<close> derives from \<^verbatim>\<open>BaseException\<close>, so a clause
  \<^verbatim>\<open>except Exception\<close> does not catch it; every other exception the SDK raises is an
  \<^verbatim>\<open>Exception\<close>, carried here with the text \<^verbatim>\<open>str(e)\<close> that the handlers print.
\<close>

datatype exc = CancelledError | Exception string

text \<open>
  What running a coroutine against a finite script of resumptions gives: it returned a
  value, it raised, or it is still suspended at an \<^verbatim>\<open>await\<close> when the script ends.
\<close>

datatype 'a outcome = Returned 'a | Raised exc | Pending

section \<open>The room, as the source reads it\<close>

datatype ConnectionState = CONN_DISCONNECTED | CONN_CONNECTED | CONN_RECONNECTING

text \<open>The SDK's track classes; \<^verbatim>\<open>isinstance(t, rtc.RemoteVideoTrack)\<close> tests the class.\<close>

datatype Track =
    RemoteVideoTrack (sid: string)
  | RemoteAudioTrack (sid: string)
  | LocalVideoTrack (sid: string)
  | LocalAudioTrack (sid: string)

fun isinstance_RemoteVideoTrack :: "Track \<Rightarrow> bool" where
  "isinstance_RemoteVideoTrack (RemoteVideoTrack _) = True"
| "isinstance_RemoteVideoTrack _ = False"

record TrackPublication =
  track :: "Track option"

record Participant =
  track_publications :: "(string \<times> TrackPublication) list"

text \<open>
  The two dictionaries are association lists in iteration order
  (\<^verbatim>\<open>.items()\<close> yields a dict's entries in insertion order).
\<close>

record Room =
  name :: string
  connection_state :: ConnectionState
  remote_participants :: "(string \<times> Participant) list"

text \<open>
  A coroutine suspended at an \<^verbatim>\<open>await\<close> is resumed by the event loop, either normally
  (\<open>Wake room v\<close>: the room as it is at that moment, and the value the awaited
  operation delivers) or with \<^verbatim>\<open>asyncio.CancelledError\<close> thrown in at the
  \<^verbatim>\<open>await\<close> (\<open>Cancel\<close>). No other coroutine runs between two resumptions of one
  coroutine's synchronous code, so the room read after a resumption is the one it carries.
\<close>

datatype 'a wake = Cancel | Wake Room 'a

text \<open>What \<^verbatim>\<open>async for event in rtc.VideoStream(video_track)\<close> is handed at each step:
  an event with a frame, the end of the stream, or an \<^verbatim>\<open>Exception\<close> of the SDK
  (opening or reading the stream).\<close>

datatype 'f stream_item = Frame 'f | StopAsyncIteration | StreamError string

section \<open>class AssistantFunction\<close>

text \<open>
  \<^verbatim>\<open>__init__\<close> hands the base class an empty tool list and sets
  \<^verbatim>\<open>self.latest_image = None\<close>. The record is extensible: a statement about
  \<open>('f, 'z) AssistantFunction_scheme\<close> covers every further field of the object.
\<close>

record 'f AssistantFunction =
  tools :: "string list"
  latest_image :: "'f option"

definition AssistantFunction_init :: "'f AssistantFunction" where
  "AssistantFunction_init = \<lparr>tools = [], latest_image = None\<rparr>"


text \<open>
  \<^verbatim>\<open>if self.latest_image:\<close> tests truthiness: \<^verbatim>\<open>None\<close> is false, and an
  \<^verbatim>\<open>rtc.VideoFrame\<close> is an object whose class defines neither \<^verbatim>\<open>__bool__\<close> nor
  \<^verbatim>\<open>__len__\<close>, so every frame is true.
\<close>

fun truthy :: "'f option \<Rightarrow> bool" where
  "truthy None = False"
| "truthy (Some _) = True"

text \<open>\<^verbatim>\<open>analyze_image\<close> returns its prints, its return value and the object after the call.\<close>

definition analyze_image ::
  "('f, 'z) AssistantFunction_scheme \<Rightarrow> string \<Rightarrow>
     event list \<times> string \<times> ('f, 'z) AssistantFunction_scheme" where
  "analyze_image self user_msg =
     ([Print (''Message triggering vision capabilities: '' @ user_msg)],
      (if truthy (latest_image self)
       then ''I can see the current video feed. Let me analyze what's visible.''
       else ''I don't currently have access to any images to analyze.''),
      self)"

definition update_image ::
  "('f, 'z) AssistantFunction_scheme \<Rightarrow> 'f \<Rightarrow> ('f, 'z) AssistantFunction_scheme" where
  "update_image self img = self\<lparr>latest_image := Some img\<rparr>"

section \<open>class VisionAssistant\<close>

definition instructions :: string where
  "instructions =
     ''Your name is Alloy. You are a funny, witty bot with vision capabilities. '' @
     ''Your interface with users will be voice and vision. '' @
     ''Respond with short and concise answers. '' @
     ''Avoid using unpronounceable punctuation or emojis. '' @
     ''When users ask you to look at something or describe what you see, '' @
     ''call the analyze_image function to use your vision capabilities.''"

section \<open>get_video_track\<close>

text \<open>The inner \<^verbatim>\<open>for\<close> loop over \<^verbatim>\<open>participant.track_publications.items()\<close>.\<close>

fun scan_publications :: "(string \<times> TrackPublication) list \<Rightarrow> Track option" where
  "scan_publications [] = None"
| "scan_publications ((_, track_publication) # pubs) =
     (case track track_publication of
        None \<Rightarrow> scan_publications pubs
      | Some t \<Rightarrow> if isinstance_RemoteVideoTrack t then Some t else scan_publications pubs)"

text \<open>The middle \<^verbatim>\<open>for\<close> loop over \<^verbatim>\<open>room.remote_participants.items()\<close>.\<close>

fun scan_participants :: "(string \<times> Participant) list \<Rightarrow> Track option" where
  "scan_participants [] = None"
| "scan_participants ((_, participant) # ps) =
     (case scan_publications (track_publications participant) of
        Some t \<Rightarrow> Some t
      | None \<Rightarrow> scan_participants ps)"

text \<open>
  The outer loop \<^verbatim>\<open>for _ in range(30)\<close>, by the number of attempts left. An attempt
  scans the room as it is; a track found is printed and returned at once; otherwise the
  coroutine awaits \<^verbatim>\<open>asyncio.sleep(1)\<close> and is resumed with the next room, or is
  cancelled there. The result is the events, the outcome and the unread resumptions.
\<close>

fun get_video_track_attempts ::
  "nat \<Rightarrow> Room \<Rightarrow> 'a wake list \<Rightarrow> event list \<times> Track option outcome \<times> 'a wake list" where
  "get_video_track_attempts 0 room ws = ([], Returned None, ws)"
| "get_video_track_attempts (Suc n) room ws =
     (case scan_participants (remote_participants room) of
        Some t \<Rightarrow> ([Print (''Using video track '' @ sid t)], Returned (Some t), ws)
      | None \<Rightarrow>
          (case ws of
             [] \<Rightarrow> ([Sleep 1], Pending, [])
           | Cancel # ws' \<Rightarrow> ([Sleep 1], Raised CancelledError, ws')
           | Wake room' _ # ws' \<Rightarrow>
               (case get_video_track_attempts n room' ws' of
                  (ev, r, ws'') \<Rightarrow> (Sleep 1 # ev, r, ws''))))"

definition get_video_track ::
  "Room \<Rightarrow> 'a wake list \<Rightarrow> event list \<times> Track option outcome \<times> 'a wake list" where
  "get_video_track room ws = get_video_track_attempts 30 room ws"

text \<open>The rooms that the first \<open>n\<close> attempts scan: the room at the call, then the room of
  each resumption, up to the first cancellation.\<close>

fun scanned_rooms :: "nat \<Rightarrow> Room \<Rightarrow> 'a wake list \<Rightarrow> Room list" where
  "scanned_rooms 0 room ws = []"
| "scanned_rooms (Suc n) room [] = [room]"
| "scanned_rooms (Suc n) room (Cancel # ws) = [room]"
| "scanned_rooms (Suc n) room (Wake room' _ # ws) = room # scanned_rooms n room' ws"

text \<open>The tracks a room publishes: the track fields of its remote participants'
  publications.\<close>

definition published_tracks :: "Room \<Rightarrow> Track set" where
  "published_tracks room =
     (\<Union>(k, p) \<in> set (remote_participants room).
        \<Union>(k', pub) \<in> set (track_publications p). set_option (track pub))"

section \<open>process_video\<close>

text \<open>
  The loop \<^verbatim>\<open>async for event in rtc.VideoStream(video_track)\<close> with its body
  \<^verbatim>\<open>function_ctx.update_image(event.frame)\<close>. Each step awaits the stream. The loop
  ends when the stream does; the room at that resumption is handed on, since the caller
  reads \<^verbatim>\<open>ctx.room.connection_state\<close> next.
\<close>

fun video_stream ::
  "('f, 'z) AssistantFunction_scheme \<Rightarrow> 'f stream_item wake list \<Rightarrow>
     ('f, 'z) AssistantFunction_scheme \<times> Room outcome \<times> 'f stream_item wake list" where
  "video_stream function_ctx [] = (function_ctx, Pending, [])"
| "video_stream function_ctx (Cancel # ws) = (function_ctx, Raised CancelledError, ws)"
| "video_stream function_ctx (Wake room (Frame frame) # ws) =
     video_stream (update_image function_ctx frame) ws"
| "video_stream function_ctx (Wake room StopAsyncIteration # ws) =
     (function_ctx, Returned room, ws)"
| "video_stream function_ctx (Wake room (StreamError m) # ws) =
     (function_ctx, Raised (Exception m), ws)"

text \<open>
  One pass through the suite of the inner \<^verbatim>\<open>try\<close>: search for a track; with none,
  print, \<^verbatim>\<open>await asyncio.sleep(2)\<close> and \<^verbatim>\<open>continue\<close>; with one, print and consume
  the stream. \<open>Returned room'\<close> is the suite left normally (by \<^verbatim>\<open>continue\<close> or at its
  end) with the room as last seen.
\<close>

definition try_body ::
  "('f, 'z) AssistantFunction_scheme \<Rightarrow> Room \<Rightarrow> 'f stream_item wake list \<Rightarrow>
     event list \<times> ('f, 'z) AssistantFunction_scheme \<times> Room outcome \<times> 'f stream_item wake list" where
  "try_body function_ctx room ws =
     (case get_video_track room ws of
        (ev, Pending, ws') \<Rightarrow> (ev, function_ctx, Pending, ws')
      | (ev, Raised e, ws') \<Rightarrow> (ev, function_ctx, Raised e, ws')
      | (ev, Returned None, ws') \<Rightarrow>
          (case ws' of
             [] \<Rightarrow> (ev @ [Print ''No video track found, waiting...'', Sleep 2],
                     function_ctx, Pending, [])
           | Cancel # ws'' \<Rightarrow> (ev @ [Print ''No video track found, waiting...'', Sleep 2],
                     function_ctx, Raised CancelledError, ws'')
           | Wake room' _ # ws'' \<Rightarrow> (ev @ [Print ''No video track found, waiting...'', Sleep 2],
                     function_ctx, Returned room', ws''))
      | (ev, Returned (Some video_track), ws') \<Rightarrow>
          (case video_stream function_ctx ws' of
             (function_ctx', r, ws'') \<Rightarrow>
               (ev @ [Print ''Starting video stream processing...''], function_ctx', r, ws'')))"

text \<open>
  The loop \<^verbatim>\<open>while ctx.room.connection_state == rtc.ConnectionState.CONN_CONNECTED\<close>
  with the inner \<^verbatim>\<open>try\<close> ... \<^verbatim>\<open>except Exception as e\<close>: the handler prints, awaits
  \<^verbatim>\<open>asyncio.sleep(1)\<close> and falls through to the loop test. \<^verbatim>\<open>CancelledError\<close> is not
  an \<^verbatim>\<open>Exception\<close> and leaves the loop. Every pass awaits at least once, so the loop
  is a recursion on the resumptions left.
\<close>

function process_video_loop ::
  "('f, 'z) AssistantFunction_scheme \<Rightarrow> Room \<Rightarrow> 'f stream_item wake list \<Rightarrow>
     event list \<times> ('f, 'z) AssistantFunction_scheme \<times> unit outcome \<times> 'f stream_item wake list" where
  "process_video_loop function_ctx room ws =
     (if connection_state room \<noteq> CONN_CONNECTED then ([], function_ctx, Returned (), ws)
      else
        (case try_body function_ctx room ws of
           (ev, function_ctx', Pending, ws') \<Rightarrow> (ev, function_ctx', Pending, ws')
         | (ev, function_ctx', Returned room', ws') \<Rightarrow>
             (case process_video_loop function_ctx' room' ws' of
                (ev', run) \<Rightarrow> (ev @ ev', run))
         | (ev, function_ctx', Raised CancelledError, ws') \<Rightarrow>
             (ev, function_ctx', Raised CancelledError, ws')
         | (ev, function_ctx', Raised (Exception e), ws') \<Rightarrow>
             (case ws' of
                [] \<Rightarrow> (ev @ [Print (''Video processing error: '' @ e), Sleep 1],
                        function_ctx', Pending, [])
              | Cancel # ws'' \<Rightarrow> (ev @ [Print (''Video processing error: '' @ e), Sleep 1],
                        function_ctx', Raised CancelledError, ws'')
              | Wake room' _ # ws'' \<Rightarrow>
                  (case process_video_loop function_ctx' room' ws'' of
                     (ev', run) \<Rightarrow>
                       (ev @ [Print (''Video processing error: '' @ e), Sleep 1] @ ev', run)))))"
  by pat_completeness auto
termination process_video_loop
proof -
  have attempts: "length ws' \<le> length ws"
    if "get_video_track_attempts n room ws = (ev, r, ws')"
    for n room ev r and ws ws' :: "'f stream_item wake list"
    using that
  proof (induction n arbitrary: room ws ev)
    case 0
    then show ?case by simp
  next
    case (Suc n)
    then show ?case
      by (fastforce split: option.splits list.splits wake.splits prod.splits)
  qed
  have stream: "length ws' \<le> length ws \<and> (\<forall>room'. r = Returned room' \<longrightarrow> length ws' < length ws)"
    if "video_stream fc ws = (fc', r, ws')"
    for fc fc' :: "('f, 'z) AssistantFunction_scheme" and r ws ws'
    using that by (induction fc ws rule: video_stream.induct) auto
  have body: "length ws' \<le> length ws \<and> (\<forall>room'. r = Returned room' \<longrightarrow> length ws' < length ws)"
    if "try_body fc room ws = (ev, fc', r, ws')"
    for fc fc' :: "('f, 'z) AssistantFunction_scheme" and room ev r ws ws'
    using that unfolding try_body_def get_video_track_def
    by (auto split: prod.splits outcome.splits option.splits list.splits wake.splits
        dest!: attempts stream)
  show ?thesis
  proof (relation "measure (\<lambda>(fc, room, ws). length ws)")
    show "wf (measure (\<lambda>(fc :: ('f, 'z) AssistantFunction_scheme, room :: Room,
                          ws :: 'f stream_item wake list). length ws))"
      by simp
  next
    fix function_ctx function_ctx' :: "('f, 'z) AssistantFunction_scheme"
      and room ws ev y z r ws' room'
    assume "(ev, y) = try_body function_ctx room ws" "(function_ctx', z) = y"
      "(r, ws') = z" "r = Returned room'"
    then have "try_body function_ctx room ws = (ev, function_ctx', Returned room', ws')"
      by simp
    from body[OF this]
    show "((function_ctx', room', ws'), function_ctx, room, ws)
            \<in> measure (\<lambda>(fc, room, ws). length ws)"
      by simp
  next
    fix function_ctx function_ctx' :: "('f, 'z) AssistantFunction_scheme"
      and room ws ev y z r ws' w ws'' room'
    assume "(ev, y) = try_body function_ctx room ws" "(function_ctx', z) = y"
      "(r, ws') = z" "ws' = w # ws''"
    then have "try_body function_ctx room ws = (ev, function_ctx', r, w # ws'')"
      by simp
    from body[OF this]
    show "((function_ctx', room', ws''), function_ctx, room, ws)
            \<in> measure (\<lambda>(fc, room, ws). length ws)"
      by simp
  qed
qed

declare process_video_loop.simps [simp del]

text \<open>
  The coroutine \<^verbatim>\<open>process_video()\<close>, with the outer \<^verbatim>\<open>try\<close> ...
  \<^verbatim>\<open>except Exception as e\<close>. The first resumption is the task's first step: the room it
  carries is the room of the first loop test, and a task cancelled before its first step
  raises \<^verbatim>\<open>CancelledError\<close> without running any of its body.
\<close>

definition process_video ::
  "('f, 'z) AssistantFunction_scheme \<Rightarrow> 'f stream_item wake list \<Rightarrow>
     event list \<times> ('f, 'z) AssistantFunction_scheme \<times> unit outcome \<times> 'f stream_item wake list" where
  "process_video function_ctx ws =
     (case ws of
        [] \<Rightarrow> ([], function_ctx, Pending, [])
      | Cancel # ws' \<Rightarrow> ([], function_ctx, Raised CancelledError, ws')
      | Wake room _ # ws' \<Rightarrow>
          (case process_video_loop function_ctx room ws' of
             (ev, function_ctx', Raised (Exception e), ws'') \<Rightarrow>
               (ev @ [Print (''Video processing task error: '' @ e)],
                function_ctx', Returned (), ws'')
           | run \<Rightarrow> run))"

section \<open>entrypoint\<close>

text \<open>
  What the environment decides for one run of \<^verbatim>\<open>entrypoint\<close>: the outcome of each
  awaited SDK call (\<^verbatim>\<open>ctx.connect()\<close> and \<^verbatim>\<open>session.generate_reply(...)\<close> return
  with the room as it is then), the resumptions of the idle loop's
  \<^verbatim>\<open>asyncio.sleep(1)\<close>, and the resumptions of the video task up to the moment
  \<^verbatim>\<open>entrypoint\<close> leaves its idle loop.
\<close>

record 'f env =
  connect_result :: "Room outcome"
  start_result :: "unit outcome"
  reply_result :: "Room outcome"
  idle_wakes :: "unit wake list"
  video_wakes :: "'f stream_item wake list"

definition greeting :: string where
  "greeting = ''Greet the user warmly and let them know you can see and hear them.''"

text \<open>The loop \<^verbatim>\<open>while ctx.room.connection_state == CONN_CONNECTED: await asyncio.sleep(1)\<close>
  inside the outer \<^verbatim>\<open>try\<close> of \<^verbatim>\<open>entrypoint\<close>.\<close>

fun idle_loop :: "Room \<Rightarrow> unit wake list \<Rightarrow> event list \<times> unit outcome" where
  "idle_loop room [] =
     (if connection_state room \<noteq> CONN_CONNECTED then ([], Returned ())
      else ([Sleep 1], Pending))"
| "idle_loop room (Cancel # ws) =
     (if connection_state room \<noteq> CONN_CONNECTED then ([], Returned ())
      else ([Sleep 1], Raised CancelledError))"
| "idle_loop room (Wake room' _ # ws) =
     (if connection_state room \<noteq> CONN_CONNECTED then ([], Returned ())
      else (case idle_loop room' ws of (ev, r) \<Rightarrow> (Sleep 1 # ev, r)))"

text \<open>
  The \<^verbatim>\<open>finally\<close> suite. \<^verbatim>\<open>video_task.cancel()\<close> makes the task's next resumption
  throw \<^verbatim>\<open>CancelledError\<close> into it (and does nothing to a task that is done), so the task
  runs on its resumptions so far followed by \<open>Cancel\<close>. \<^verbatim>\<open>await video_task\<close> gives
  the task's outcome: a return value, its exception re-raised, or no return while the task
  is not done. \<^verbatim>\<open>except asyncio.CancelledError: pass\<close> swallows the one exception.
  The first component is the outcome of the suite itself.
\<close>

definition cancel_and_await ::
  "('f, 'z) AssistantFunction_scheme \<Rightarrow> 'f stream_item wake list \<Rightarrow>
     unit outcome \<times>
     (event list \<times> ('f, 'z) AssistantFunction_scheme \<times> unit outcome \<times> 'f stream_item wake list)" where
  "cancel_and_await function_ctx ws =
     (let video_task = process_video function_ctx (ws @ [Cancel]) in
      (case fst (snd (snd video_task)) of
         Pending \<Rightarrow> Pending
       | Returned _ \<Rightarrow> Returned ()
       | Raised CancelledError \<Rightarrow> Returned ()
       | Raised (Exception e) \<Rightarrow> Raised (Exception e),
       video_task))"

text \<open>
  \<^verbatim>\<open>entrypoint(ctx)\<close>: its own events, its outcome, and the run of the video task if
  the task was created. An exception of the idle loop is re-raised after the
  \<^verbatim>\<open>finally\<close> suite, unless the suite itself raises.
\<close>

definition entrypoint ::
  "'f env \<Rightarrow>
     event list \<times> unit outcome \<times>
     (event list \<times> 'f AssistantFunction \<times> unit outcome \<times> 'f stream_item wake list) option" where
  "entrypoint env =
     (case connect_result env of
        Pending \<Rightarrow> ([CtxConnect], Pending, None)
      | Raised e \<Rightarrow> ([CtxConnect], Raised e, None)
      | Returned room0 \<Rightarrow>
          (let ev1 = [CtxConnect, Print (''Room name: '' @ name room0),
                      NewVisionAssistant instructions, NewAssistantFunction,
                      VADLoad, NewSTT, NewLLM ''gpt-4o'', NewTTS ''alloy'', NewAgentSession,
                      SessionStart];
               function_ctx = AssistantFunction_init
           in
             (case start_result env of
                Pending \<Rightarrow> (ev1, Pending, None)
              | Raised e \<Rightarrow> (ev1, Raised e, None)
              | Returned _ \<Rightarrow>
                  (case reply_result env of
                     Pending \<Rightarrow> (ev1 @ [GenerateReply greeting], Pending, None)
                   | Raised e \<Rightarrow> (ev1 @ [GenerateReply greeting], Raised e, None)
                   | Returned room \<Rightarrow>
                       (case idle_loop room (idle_wakes env) of
                          (ev, Pending) \<Rightarrow>
                            (ev1 @ [GenerateReply greeting, CreateTask] @ ev, Pending,
                             Some (process_video function_ctx (video_wakes env)))
                        | (ev, r) \<Rightarrow>
                            (case cancel_and_await function_ctx (video_wakes env) of
                               (fin, video_task) \<Rightarrow>
                                 (ev1 @ [GenerateReply greeting, CreateTask] @ ev @
                                    [TaskCancel, AwaitTask],
                                  (case fin of Returned _ \<Rightarrow> r | _ \<Rightarrow> fin),
                                  Some video_task)))))))"

text \<open>The remote video tracks a room publishes: what the search looks for.\<close>

definition video_tracks :: "Room \<Rightarrow> Track set" where
  "video_tracks room = {t \<in> published_tracks room. isinstance_RemoteVideoTrack t}"

text \<open>Two rooms for the examples: one with no participant, one whose participant
  publishes an audio track, a publication without a track, and a video track.\<close>

definition empty_room :: Room where
  "empty_room = \<lparr>name = ''demo'', connection_state = CONN_CONNECTED, remote_participants = []\<rparr>"

definition video_room :: Room where
  "video_room =
     \<lparr>name = ''demo'', connection_state = CONN_CONNECTED,
      remote_participants =
        [(''alice'',
          \<lparr>track_publications =
             [(''TR_A'', \<lparr>track = Some (RemoteAudioTrack ''TR_A'')\<rparr>),
              (''TR_N'', \<lparr>track = None\<rparr>),
              (''TR_V'', \<lparr>track = Some (RemoteVideoTrack ''TR_V'')\<rparr>)]\<rparr>)]\<rparr>"





text \<open>A run for the examples of \<^verbatim>\<open>entrypoint\<close>: the idle loop sleeps twice and then
  finds the room disconnected, while the video task has found a track and cached one
  frame.\<close>

definition disconnected_room :: Room where
  "disconnected_room =
     \<lparr>name = ''demo'', connection_state = CONN_DISCONNECTED, remote_participants = []\<rparr>"

definition example_env :: "nat env" where
  "example_env =
     \<lparr>connect_result = Returned empty_room,
      start_result = Returned (),
      reply_result = Returned video_room,
      idle_wakes = [Wake video_room (), Wake disconnected_room ()],
      video_wakes = [Wake video_room StopAsyncIteration, Wake video_room (Frame 5)]\<rparr>"

section \<open>The tool context\<close>

text \<open>
  C1. Whatever \<^verbatim>\<open>user_msg\<close> is, \<^verbatim>\<open>analyze_image\<close> returns exactly the "I can see"
  string when \<^verbatim>\<open>latest_image\<close> holds a frame and exactly the "I don't currently have
  access" string when it is \<^verbatim>\<open>None\<close>; so it returns the first after any
  \<^verbatim>\<open>update_image\<close> and the second on a fresh object.
\<close>

theorem analyze_image_result:
  "(latest_image self \<noteq> None \<longrightarrow>
      fst (snd (analyze_image self user_msg)) =
        ''I can see the current video feed. Let me analyze what's visible.'')
   \<and> (latest_image self = None \<longrightarrow>
      fst (snd (analyze_image self user_msg)) =
        ''I don't currently have access to any images to analyze.'')
   \<and> fst (snd (analyze_image (update_image self frame) user_msg)) =
        ''I can see the current video feed. Let me analyze what's visible.''
   \<and> fst (snd (analyze_image (AssistantFunction_init :: 'f AssistantFunction) user_msg)) =
        ''I don't currently have access to any images to analyze.''"
  by (cases "latest_image self")
    (simp_all add: analyze_image_def update_image_def AssistantFunction_init_def)

theorem analyze_image_result_witness:
  "fst (snd (analyze_image (update_image AssistantFunction_init (7 :: nat)) ''what is this?'')) =
     ''I can see the current video feed. Let me analyze what's visible.''
   \<and> fst (snd (analyze_image (AssistantFunction_init :: nat AssistantFunction) ''what is this?'')) =
     ''I don't currently have access to any images to analyze.''"
  using
    analyze_image_result
      [of "update_image AssistantFunction_init (7 :: nat)" "''what is this?''" 7]
    analyze_image_result
      [of "AssistantFunction_init :: nat AssistantFunction" "''what is this?''" 7]
  by (simp add: update_image_def AssistantFunction_init_def)

text \<open>
  C3. The cache is one optional field, so it holds at most one frame; a call of
  \<^verbatim>\<open>update_image\<close> leaves the state that the same call gives from any earlier frame (no
  history); after any sequence of calls ending with \<open>frame\<close> the cache is \<open>frame\<close>;
  with no call at all the state is unchanged; and a second call with the same frame changes
  nothing.
\<close>

theorem update_image_latest:
  "card (set_option (latest_image (foldl update_image self frames))) \<le> 1
   \<and> update_image (update_image self f1) f2 = update_image self f2
   \<and> latest_image (foldl update_image self (frames @ [frame])) = Some frame
   \<and> foldl update_image self [] = self
   \<and> update_image (update_image self frame) frame = update_image self frame"
  by (cases "latest_image (foldl update_image self frames)") (simp_all add: update_image_def)

text \<open>
  C6. Two-run noninterference: two objects that agree on whether a frame is cached get
  the same return value and the same print from \<^verbatim>\<open>analyze_image\<close>, whatever the frames
  are; nothing of a frame's content reaches the result.
\<close>

theorem analyze_image_noninterference:
  "(latest_image self1 = None) = (latest_image self2 = None) \<Longrightarrow>
   fst (snd (analyze_image self1 user_msg)) = fst (snd (analyze_image self2 user_msg))
   \<and> fst (analyze_image self1 user_msg) = fst (analyze_image self2 user_msg)"
  by (cases "latest_image self1"; cases "latest_image self2") (simp_all add: analyze_image_def)

theorem analyze_image_noninterference_witness:
  "fst (snd (analyze_image (update_image AssistantFunction_init (1 :: nat)) ''look'')) =
   fst (snd (analyze_image (update_image AssistantFunction_init (2 :: nat)) ''look''))"
  using analyze_image_noninterference
    [of "update_image AssistantFunction_init (1 :: nat)"
        "update_image AssistantFunction_init (2 :: nat)" "''look''"]
  by (simp add: update_image_def AssistantFunction_init_def)

text \<open>
  C8. \<^verbatim>\<open>analyze_image\<close> leaves the object as it found it, every field of it;
  \<^verbatim>\<open>update_image\<close> is the method that writes \<^verbatim>\<open>latest_image\<close>, and it writes nothing
  else.
\<close>

theorem analyze_image_read_only:
  "snd (snd (analyze_image self user_msg)) = self
   \<and> latest_image (update_image self frame) = Some frame
   \<and> tools (update_image self frame) = tools self
   \<and> AssistantFunction.more (update_image self frame) = AssistantFunction.more self"
  by (simp add: analyze_image_def update_image_def)

section \<open>The track search\<close>

text \<open>What a scan finds, in terms of the tracks the room publishes.\<close>

lemma scan_publications_Some:
  "scan_publications pubs = Some t \<Longrightarrow>
     isinstance_RemoteVideoTrack t \<and> (\<exists>k pub. (k, pub) \<in> set pubs \<and> track pub = Some t)"
  by (induction pubs rule: scan_publications.induct)
    (auto split: option.splits if_splits)

lemma scan_publications_None:
  "scan_publications pubs = None \<Longrightarrow> (k, pub) \<in> set pubs \<Longrightarrow> track pub = Some t \<Longrightarrow>
     \<not> isinstance_RemoteVideoTrack t"
  by (induction pubs rule: scan_publications.induct)
    (auto split: option.splits if_splits)

lemma scan_participants_Some:
  "scan_participants ps = Some t \<Longrightarrow>
     isinstance_RemoteVideoTrack t \<and>
     (\<exists>k p k' pub. (k, p) \<in> set ps \<and> (k', pub) \<in> set (track_publications p) \<and>
        track pub = Some t)"
proof (induction ps rule: scan_participants.induct)
  case 1
  then show ?case by simp
next
  case (2 k participant ps)
  show ?case
  proof (cases "scan_publications (track_publications participant)")
    case None
    with 2 show ?thesis by fastforce
  next
    case (Some t')
    with 2 have "t' = t" by simp
    with Some scan_publications_Some[of "track_publications participant" t]
    show ?thesis by fastforce
  qed
qed

lemma scan_participants_None:
  "scan_participants ps = None \<Longrightarrow> (k, p) \<in> set ps \<Longrightarrow>
     (k', pub) \<in> set (track_publications p) \<Longrightarrow> track pub = Some t \<Longrightarrow>
     \<not> isinstance_RemoteVideoTrack t"
proof (induction ps rule: scan_participants.induct)
  case 1
  then show ?case by simp
next
  case (2 k0 participant ps)
  from "2.prems"(1) have none: "scan_publications (track_publications participant) = None"
    and rest: "scan_participants ps = None"
    by (auto split: option.splits)
  from "2.prems"(2) consider "p = participant" | "(k, p) \<in> set ps" by auto
  then show ?case
  proof cases
    case 1
    with none "2.prems" show ?thesis using scan_publications_None by blast
  next
    case 2
    with "2.IH"[OF none rest] "2.prems" show ?thesis by blast
  qed
qed

lemma scan_room_Some:
  "scan_participants (remote_participants room) = Some t \<Longrightarrow> t \<in> video_tracks room"
  unfolding video_tracks_def published_tracks_def
  using scan_participants_Some[of "remote_participants room" t] by fastforce

lemma scan_room_None:
  "scan_participants (remote_participants room) = None \<longleftrightarrow> video_tracks room = {}"
proof
  assume "scan_participants (remote_participants room) = None"
  then show "video_tracks room = {}"
    unfolding video_tracks_def published_tracks_def
    using scan_participants_None[of "remote_participants room"] by fastforce
next
  assume empty: "video_tracks room = {}"
  show "scan_participants (remote_participants room) = None"
  proof (cases "scan_participants (remote_participants room)")
    case None
    then show ?thesis .
  next
    case (Some t)
    from scan_room_Some[OF this] empty show ?thesis by simp
  qed
qed

lemma attempts_found:
  "length rs = length vs \<Longrightarrow> length rs < n \<Longrightarrow>
   \<forall>r \<in> set (butlast (room # rs)). scan_participants (remote_participants r) = None \<Longrightarrow>
   scan_participants (remote_participants (last (room # rs))) = Some t \<Longrightarrow>
   get_video_track_attempts n room (map2 Wake rs vs @ rest) =
     (replicate (length rs) (Sleep 1) @ [Print (''Using video track '' @ sid t)],
      Returned (Some t), rest)"
proof (induction rs vs arbitrary: n room rule: list_induct2)
  case Nil
  then obtain m where "n = Suc m" by (cases n) auto
  with Nil show ?case by simp
next
  case (Cons r rs v vs)
  then obtain m where n: "n = Suc m" by (cases n) auto
  from Cons.prems have here: "scan_participants (remote_participants room) = None" by simp
  from Cons.prems n have "length rs < m"
    and "\<forall>r' \<in> set (butlast (r # rs)). scan_participants (remote_participants r') = None"
    and "scan_participants (remote_participants (last (r # rs))) = Some t"
    by auto
  from Cons.IH[OF this] here n show ?case by simp
qed

lemma attempts_none:
  "length rs = length vs \<Longrightarrow> length rs = n \<Longrightarrow>
   \<forall>r \<in> set (butlast (room # rs)). scan_participants (remote_participants r) = None \<Longrightarrow>
   get_video_track_attempts n room (map2 Wake rs vs @ rest) =
     (replicate n (Sleep 1), Returned None, rest)"
proof (induction rs vs arbitrary: n room rule: list_induct2)
  case Nil
  then show ?case by simp
next
  case (Cons r rs v vs)
  then obtain m where n: "n = Suc m" by (cases n) auto
  from Cons.prems have here: "scan_participants (remote_participants room) = None" by simp
  from Cons.prems n have "length rs = m"
    and "\<forall>r' \<in> set (butlast (r # rs)). scan_participants (remote_participants r') = None"
    by auto
  from Cons.IH[OF this] here n show ?case by simp
qed

lemma video_tracks_empty_room: "video_tracks empty_room = {}"
  by (simp add: video_tracks_def published_tracks_def empty_room_def)

lemma video_tracks_video_room: "video_tracks video_room = {RemoteVideoTrack ''TR_V''}"
  by (auto simp add: video_tracks_def published_tracks_def video_room_def)

lemma scanned_rooms_head: "room \<in> set (scanned_rooms (Suc n) room ws)"
  by (cases "(Suc n, room, ws)" rule: scanned_rooms.cases) auto

lemma attempts_Some:
  "get_video_track_attempts n room ws = (ev, Returned (Some t), ws') \<Longrightarrow>
     \<exists>r \<in> set (scanned_rooms n room ws). t \<in> video_tracks r"
proof (induction n arbitrary: room ws ev)
  case 0
  then show ?case by simp
next
  case (Suc n)
  show ?case
  proof (cases "scan_participants (remote_participants room)")
    case (Some t')
    with Suc.prems have "t' = t" by simp
    with Some have "t \<in> video_tracks room" by (simp add: scan_room_Some)
    then show ?thesis using scanned_rooms_head[of room n ws] by blast
  next
    case None
    show ?thesis
    proof (cases ws)
      case Nil
      with None Suc.prems show ?thesis by simp
    next
      case (Cons w ws1)
      show ?thesis
      proof (cases w)
        case Cancel
        with None Cons Suc.prems show ?thesis by simp
      next
        case (Wake room' v)
        with None Cons Suc.prems obtain ev1 where
          "get_video_track_attempts n room' ws1 = (ev1, Returned (Some t), ws')"
          by (auto split: prod.splits)
        from Suc.IH[OF this] Cons Wake show ?thesis by simp
      qed
    qed
  qed
qed

text \<open>
  C2. Let \<open>rs\<close> be the rooms as they are when each \<^verbatim>\<open>asyncio.sleep(1)\<close> ends, so that
  the attempts scan \<open>room # rs\<close> in turn. If the first room with a remote video track
  comes within the 30 attempts, \<^verbatim>\<open>get_video_track\<close> returns a remote video track of that
  room, after one sleep per earlier attempt. If none of the 30 rooms scanned has one, it
  returns \<^verbatim>\<open>None\<close> after exactly 30 sleeps of one second; the room at the end of the
  thirtieth sleep is not scanned.
\<close>

theorem get_video_track_polling:
  "(length rs = length vs \<and> length rs < 30 \<and>
    (\<forall>r \<in> set (butlast (room # rs)). video_tracks r = {}) \<and>
    video_tracks (last (room # rs)) \<noteq> {} \<longrightarrow>
      (\<exists>t \<in> video_tracks (last (room # rs)).
         get_video_track room (map2 Wake rs vs @ rest) =
           (replicate (length rs) (Sleep 1) @ [Print (''Using video track '' @ sid t)],
            Returned (Some t), rest)))
   \<and> (length rs = length vs \<and> length rs = 30 \<and>
       (\<forall>r \<in> set (butlast (room # rs)). video_tracks r = {}) \<longrightarrow>
        get_video_track room (map2 Wake rs vs @ rest) =
          (replicate 30 (Sleep 1), Returned None, rest))"
proof (intro conjI impI)
  assume a: "length rs = length vs \<and> length rs < 30 \<and>
    (\<forall>r \<in> set (butlast (room # rs)). video_tracks r = {}) \<and>
    video_tracks (last (room # rs)) \<noteq> {}"
  then obtain t where t: "scan_participants (remote_participants (last (room # rs))) = Some t"
    using scan_room_None[of "last (room # rs)"] by (cases "scan_participants (remote_participants (last (room # rs)))") auto
  from a have none: "\<forall>r \<in> set (butlast (room # rs)). scan_participants (remote_participants r) = None"
    using scan_room_None by blast
  from a have "length rs = length vs" "length rs < 30" by auto
  from attempts_found[OF this none t, of rest] scan_room_Some[OF t]
  show "\<exists>t \<in> video_tracks (last (room # rs)).
         get_video_track room (map2 Wake rs vs @ rest) =
           (replicate (length rs) (Sleep 1) @ [Print (''Using video track '' @ sid t)],
            Returned (Some t), rest)"
    unfolding get_video_track_def by blast
next
  assume a: "length rs = length vs \<and> length rs = 30 \<and>
       (\<forall>r \<in> set (butlast (room # rs)). video_tracks r = {})"
  then have none: "\<forall>r \<in> set (butlast (room # rs)). scan_participants (remote_participants r) = None"
    using scan_room_None by blast
  from a have "length rs = length vs" "length rs = 30" by auto
  from attempts_none[OF this none, of rest]
  show "get_video_track room (map2 Wake rs vs @ rest) =
          (replicate 30 (Sleep 1), Returned None, rest)"
    unfolding get_video_track_def .
qed

theorem get_video_track_polling_witness:
  "get_video_track empty_room [Wake video_room ()] =
     ([Sleep 1, Print ''Using video track TR_V''], Returned (Some (RemoteVideoTrack ''TR_V'')), [])
   \<and> get_video_track empty_room (replicate 30 (Wake empty_room ()) @ [Wake video_room ()]) =
     (replicate 30 (Sleep 1), Returned None, [Wake video_room ()])"
proof
  have "length [video_room] = length [()] \<and> length [video_room] < 30 \<and>
    (\<forall>r \<in> set (butlast (empty_room # [video_room])). video_tracks r = {}) \<and>
    video_tracks (last (empty_room # [video_room])) \<noteq> {}"
    by (simp add: video_tracks_empty_room video_tracks_video_room)
  with get_video_track_polling[of "[video_room]" "[()]" empty_room "[]"]
  obtain t where "t \<in> video_tracks (last (empty_room # [video_room]))"
    and "get_video_track empty_room (map2 Wake [video_room] [()] @ []) =
           (replicate (length [video_room]) (Sleep 1) @ [Print (''Using video track '' @ sid t)],
            Returned (Some t), [])"
    by blast
  then show "get_video_track empty_room [Wake video_room ()] =
     ([Sleep 1, Print ''Using video track TR_V''], Returned (Some (RemoteVideoTrack ''TR_V'')), [])"
    by (simp add: video_tracks_video_room)
next
  have "length (replicate 30 empty_room) = length (replicate 30 ()) \<and>
    length (replicate 30 empty_room) = 30 \<and>
    (\<forall>r \<in> set (butlast (empty_room # replicate 30 empty_room)). video_tracks r = {})"
    by (auto simp add: video_tracks_empty_room dest: in_set_butlastD)
  with get_video_track_polling[of "replicate 30 empty_room" "replicate 30 ()" empty_room "[Wake video_room ()]"]
  have "get_video_track empty_room (map2 Wake (replicate 30 empty_room) (replicate 30 ()) @ [Wake video_room ()]) =
          (replicate 30 (Sleep 1), Returned None, [Wake video_room ()])"
    by blast
  moreover have "map2 Wake (replicate 30 empty_room) (replicate 30 ()) = replicate 30 (Wake empty_room ())"
    by (simp add: zip_replicate)
  ultimately show "get_video_track empty_room (replicate 30 (Wake empty_room ()) @ [Wake video_room ()]) =
     (replicate 30 (Sleep 1), Returned None, [Wake video_room ()])"
    by simp
qed

text \<open>
  C9. With a remote video track published when \<^verbatim>\<open>get_video_track\<close> is called, the call
  returns a remote video track of that room from the first scan: its only event is the
  print, it makes no call of \<^verbatim>\<open>asyncio.sleep\<close>, and it consumes no resumption.
\<close>

theorem get_video_track_first_scan:
  "video_tracks room \<noteq> {} \<Longrightarrow>
   \<exists>t \<in> video_tracks room.
     get_video_track room ws = ([Print (''Using video track '' @ sid t)], Returned (Some t), ws)
     \<and> Sleep 1 \<notin> set (fst (get_video_track room ws))"
proof -
  assume "video_tracks room \<noteq> {}"
  then obtain t where t: "scan_participants (remote_participants room) = Some t"
    using scan_room_None[of room] by (cases "scan_participants (remote_participants room)") auto
  then have "get_video_track room ws =
      ([Print (''Using video track '' @ sid t)], Returned (Some t), ws)"
    by (simp add: get_video_track_def eval_nat_numeral)
  with scan_room_Some[OF t] show ?thesis by auto
qed

theorem get_video_track_first_scan_witness:
  "get_video_track video_room [Wake empty_room ()] =
     ([Print ''Using video track TR_V''], Returned (Some (RemoteVideoTrack ''TR_V'')),
      [Wake empty_room ()])
   \<and> Sleep 1 \<notin> set (fst (get_video_track video_room [Wake empty_room ()]))"
proof -
  have "video_tracks video_room \<noteq> {}" by (simp add: video_tracks_video_room)
  from get_video_track_first_scan[OF this, of "[Wake empty_room ()]"]
  show ?thesis by (simp add: video_tracks_video_room)
qed

text \<open>
  C10. A value other than \<^verbatim>\<open>None\<close> that \<^verbatim>\<open>get_video_track\<close> returns is an instance of
  \<^verbatim>\<open>RemoteVideoTrack\<close> and is the track of a publication of a remote participant of
  a room that one of the attempts scanned.
\<close>

theorem get_video_track_returns_video_track:
  "get_video_track room ws = (ev, Returned (Some t), ws') \<Longrightarrow>
     isinstance_RemoteVideoTrack t \<and> t = RemoteVideoTrack (sid t)
     \<and> (\<exists>r \<in> set (scanned_rooms 30 room ws). t \<in> published_tracks r)"
proof -
  assume "get_video_track room ws = (ev, Returned (Some t), ws')"
  then obtain r where "r \<in> set (scanned_rooms 30 room ws)" "t \<in> video_tracks r"
    unfolding get_video_track_def using attempts_Some by blast
  then show ?thesis by (cases t) (auto simp add: video_tracks_def)
qed

theorem get_video_track_returns_video_track_witness:
  "get_video_track empty_room [Wake video_room ()] =
     ([Sleep 1, Print ''Using video track TR_V''], Returned (Some (RemoteVideoTrack ''TR_V'')), [])
   \<and> isinstance_RemoteVideoTrack (RemoteVideoTrack ''TR_V'')
   \<and> (\<exists>r \<in> set (scanned_rooms 30 empty_room [Wake video_room ()]).
         RemoteVideoTrack ''TR_V'' \<in> published_tracks r)"
proof -
  have run: "get_video_track empty_room [Wake video_room ()] =
     ([Sleep 1, Print ''Using video track TR_V''], Returned (Some (RemoteVideoTrack ''TR_V'')), [])"
    by (simp add: get_video_track_def empty_room_def video_room_def eval_nat_numeral)
  from get_video_track_returns_video_track[OF run] run show ?thesis by simp
qed

section \<open>The video task\<close>

text \<open>
  What a run leaves of its resumptions: the unread ones are a tail of those given; the
  part read holds no cancellation unless the run ended in \<^verbatim>\<open>CancelledError\<close>; a run
  is pending only when it has read them all.
\<close>

lemma attempts_consumed:
  "get_video_track_attempts n room ws = (ev, r, ws') \<Longrightarrow>
     \<exists>pre. ws = pre @ ws' \<and> (r \<noteq> Raised CancelledError \<longrightarrow> Cancel \<notin> set pre) \<and>
       (r = Pending \<longrightarrow> ws' = []) \<and> (\<forall>e. r \<noteq> Raised (Exception e))"
proof (induction n arbitrary: room ws ev)
  case 0
  then show ?case by auto
next
  case (Suc n)
  show ?case
  proof (cases "scan_participants (remote_participants room)")
    case (Some t)
    with Suc.prems show ?thesis by auto
  next
    case None
    show ?thesis
    proof (cases ws)
      case Nil
      with None Suc.prems show ?thesis by auto
    next
      case (Cons w ws1)
      show ?thesis
      proof (cases w)
        case Cancel
        with None Cons Suc.prems have "r = Raised CancelledError" "ws' = ws1" by auto
        with Cons show ?thesis by auto
      next
        case (Wake room' v)
        with None Cons Suc.prems obtain ev1 where
          "get_video_track_attempts n room' ws1 = (ev1, r, ws')"
          by (auto split: prod.splits)
        from Suc.IH[OF this] obtain pre where "ws1 = pre @ ws'"
          "r \<noteq> Raised CancelledError \<longrightarrow> Cancel \<notin> set pre"
          "r = Pending \<longrightarrow> ws' = []" "\<forall>e. r \<noteq> Raised (Exception e)"
          by blast
        with Cons Wake have "ws = (w # pre) @ ws'"
          "r \<noteq> Raised CancelledError \<longrightarrow> Cancel \<notin> set (w # pre)"
          by auto
        with \<open>r = Pending \<longrightarrow> ws' = []\<close> \<open>\<forall>e. r \<noteq> Raised (Exception e)\<close>
        show ?thesis by blast
      qed
    qed
  qed
qed

lemma video_stream_consumed:
  "video_stream fc ws = (fc', r, ws') \<Longrightarrow>
     \<exists>pre. ws = pre @ ws' \<and> (r \<noteq> Raised CancelledError \<longrightarrow> Cancel \<notin> set pre) \<and>
       (r = Pending \<longrightarrow> ws' = []) \<and>
       (\<forall>room'. r = Returned room' \<longrightarrow> (\<exists>v. Wake room' v \<in> set pre))"
proof (induction fc ws rule: video_stream.induct)
  case (3 function_ctx room frame ws)
  then obtain pre where "ws = pre @ ws'"
    "r \<noteq> Raised CancelledError \<longrightarrow> Cancel \<notin> set pre" "r = Pending \<longrightarrow> ws' = []"
    "\<forall>room'. r = Returned room' \<longrightarrow> (\<exists>v. Wake room' v \<in> set pre)"
    by auto
  then have "Wake room (Frame frame) # ws = (Wake room (Frame frame) # pre) @ ws'"
    "r \<noteq> Raised CancelledError \<longrightarrow> Cancel \<notin> set (Wake room (Frame frame) # pre)"
    "\<forall>room'. r = Returned room' \<longrightarrow> (\<exists>v. Wake room' v \<in> set (Wake room (Frame frame) # pre))"
    by auto
  with \<open>r = Pending \<longrightarrow> ws' = []\<close> show ?case by blast
next
  case (2 function_ctx ws)
  then have "Cancel # ws = [Cancel] @ ws'" "r = Raised CancelledError" by auto
  then show ?case by blast
next
  case (4 function_ctx room ws)
  then have "Wake room StopAsyncIteration # ws = [Wake room StopAsyncIteration] @ ws'"
    "r = Returned room" by auto
  then show ?case by force
next
  case (5 function_ctx room m ws)
  then have "Wake room (StreamError m) # ws = [Wake room (StreamError m)] @ ws'"
    "r = Raised (Exception m)" by auto
  then show ?case by force
qed auto

lemma try_body_consumed:
  "try_body fc room ws = (ev, fc', r, ws') \<Longrightarrow>
     \<exists>pre. ws = pre @ ws' \<and> (r \<noteq> Raised CancelledError \<longrightarrow> Cancel \<notin> set pre) \<and>
       (r = Pending \<longrightarrow> ws' = []) \<and>
       (\<forall>room'. r = Returned room' \<longrightarrow> (\<exists>v. Wake room' v \<in> set pre))"
proof -
  assume run: "try_body fc room ws = (ev, fc', r, ws')"
  obtain ev1 r1 ws1 where g: "get_video_track_attempts 30 room ws = (ev1, r1, ws1)"
    by (cases "get_video_track_attempts 30 room ws") auto
  from attempts_consumed[OF g] obtain pre1 where pre1: "ws = pre1 @ ws1"
    "r1 \<noteq> Raised CancelledError \<longrightarrow> Cancel \<notin> set pre1" "r1 = Pending \<longrightarrow> ws1 = []"
    by blast
  show ?thesis
  proof (cases r1)
    case Pending
    with run g pre1 show ?thesis
      by (auto simp add: try_body_def get_video_track_def)
  next
    case (Raised e)
    with run g have "r = Raised e" "ws' = ws1"
      by (auto simp add: try_body_def get_video_track_def)
    with pre1 Raised show ?thesis by auto
  next
    case (Returned found)
    show ?thesis
    proof (cases found)
      case None
      show ?thesis
      proof (cases ws1)
        case Nil
        with run g Returned None pre1 show ?thesis
          by (auto simp add: try_body_def get_video_track_def)
      next
        case (Cons w ws2)
        show ?thesis
        proof (cases w)
          case Cancel
          with run g Returned None Cons have "r = Raised CancelledError" "ws' = ws2"
            by (auto simp add: try_body_def get_video_track_def)
          with pre1 Cons have "ws = (pre1 @ [w]) @ ws'" by simp
          with \<open>r = Raised CancelledError\<close> show ?thesis by blast
        next
          case (Wake room' v)
          with run g Returned None Cons have r: "r = Returned room'" "ws' = ws2"
            by (auto simp add: try_body_def get_video_track_def)
          with pre1 Cons Returned Wake have "ws = (pre1 @ [w]) @ ws'"
            "Cancel \<notin> set (pre1 @ [w])" "Wake room' v \<in> set (pre1 @ [w])"
            by auto
          with r show ?thesis by blast
        qed
      qed
    next
      case (Some video_track)
      with run g Returned obtain s: "video_stream fc ws1 = (fc', r, ws')"
        by (auto simp add: try_body_def get_video_track_def split: prod.splits)
      from video_stream_consumed[OF s] obtain pre2 where pre2: "ws1 = pre2 @ ws'"
        "r \<noteq> Raised CancelledError \<longrightarrow> Cancel \<notin> set pre2" "r = Pending \<longrightarrow> ws' = []"
        "\<forall>room'. r = Returned room' \<longrightarrow> (\<exists>v. Wake room' v \<in> set pre2)"
        by blast
      with pre1 Returned have "ws = (pre1 @ pre2) @ ws'"
        "r \<noteq> Raised CancelledError \<longrightarrow> Cancel \<notin> set (pre1 @ pre2)"
        "\<forall>room'. r = Returned room' \<longrightarrow> (\<exists>v. Wake room' v \<in> set (pre1 @ pre2))"
        by auto
      with \<open>r = Pending \<longrightarrow> ws' = []\<close> show ?thesis by blast
    qed
  qed
qed


text \<open>The loop's equation, one case at a time, and its induction rule in the same
  terms.\<close>

lemma loop_disconnected:
  "connection_state room \<noteq> CONN_CONNECTED \<Longrightarrow>
     process_video_loop fc room ws = ([], fc, Returned (), ws)"
  by (subst process_video_loop.simps) simp

lemma loop_pending:
  "connection_state room = CONN_CONNECTED \<Longrightarrow>
   try_body fc room ws = (ev, fc', Pending, ws') \<Longrightarrow>
     process_video_loop fc room ws = (ev, fc', Pending, ws')"
  by (subst process_video_loop.simps) simp

lemma loop_returned:
  "connection_state room = CONN_CONNECTED \<Longrightarrow>
   try_body fc room ws = (ev, fc', Returned room', ws') \<Longrightarrow>
     process_video_loop fc room ws =
       (case process_video_loop fc' room' ws' of (ev', run) \<Rightarrow> (ev @ ev', run))"
  by (subst process_video_loop.simps) simp

lemma loop_cancelled:
  "connection_state room = CONN_CONNECTED \<Longrightarrow>
   try_body fc room ws = (ev, fc', Raised CancelledError, ws') \<Longrightarrow>
     process_video_loop fc room ws = (ev, fc', Raised CancelledError, ws')"
  by (subst process_video_loop.simps) simp

lemma loop_error_pending:
  "connection_state room = CONN_CONNECTED \<Longrightarrow>
   try_body fc room ws = (ev, fc', Raised (Exception e), []) \<Longrightarrow>
     process_video_loop fc room ws =
       (ev @ [Print (''Video processing error: '' @ e), Sleep 1], fc', Pending, [])"
  by (subst process_video_loop.simps) simp

lemma loop_error_cancelled:
  "connection_state room = CONN_CONNECTED \<Longrightarrow>
   try_body fc room ws = (ev, fc', Raised (Exception e), Cancel # ws'') \<Longrightarrow>
     process_video_loop fc room ws =
       (ev @ [Print (''Video processing error: '' @ e), Sleep 1], fc',
        Raised CancelledError, ws'')"
  by (subst process_video_loop.simps) simp

lemma loop_error_retry:
  "connection_state room = CONN_CONNECTED \<Longrightarrow>
   try_body fc room ws = (ev, fc', Raised (Exception e), Wake room' v # ws'') \<Longrightarrow>
     process_video_loop fc room ws =
       (case process_video_loop fc' room' ws'' of
          (ev', run) \<Rightarrow> (ev @ [Print (''Video processing error: '' @ e), Sleep 1] @ ev', run))"
  by (subst process_video_loop.simps) simp

lemma loop_induct [case_names pass]:
  assumes "\<And>fc room ws.
     (\<And>ev fc' room' ws'. connection_state room = CONN_CONNECTED \<Longrightarrow>
         try_body fc room ws = (ev, fc', Returned room', ws') \<Longrightarrow> P fc' room' ws') \<Longrightarrow>
     (\<And>ev fc' e room' v ws''. connection_state room = CONN_CONNECTED \<Longrightarrow>
         try_body fc room ws = (ev, fc', Raised (Exception e), Wake room' v # ws'') \<Longrightarrow>
         P fc' room' ws'') \<Longrightarrow>
     P fc room ws"
  shows "P fc room ws"
proof (induction fc room ws rule: process_video_loop.induct)
  case (1 function_ctx room ws)
  show ?case
  proof (rule assms)
    fix ev fc' room' ws'
    assume "connection_state room = CONN_CONNECTED"
      "try_body function_ctx room ws = (ev, fc', Returned room', ws')"
    then show "P fc' room' ws'"
      using "1.IH"(1)[of ev "(fc', Returned room', ws')" fc' "(Returned room', ws')"
          "Returned room'" ws' room']
      by simp
  next
    fix ev fc' e room' v ws''
    assume "connection_state room = CONN_CONNECTED"
      "try_body function_ctx room ws = (ev, fc', Raised (Exception e), Wake room' v # ws'')"
    then show "P fc' room' ws''"
      using "1.IH"(2)[of ev "(fc', Raised (Exception e), Wake room' v # ws'')" fc'
          "(Raised (Exception e), Wake room' v # ws'')" "Raised (Exception e)"
          "Wake room' v # ws''" "Exception e" e "Wake room' v" ws'' room' v]
      by simp
  qed
qed

lemma loop_consumed:
  "process_video_loop fc room ws = (ev, fc', r, ws') \<Longrightarrow>
     \<exists>pre. ws = pre @ ws' \<and> (r \<noteq> Raised CancelledError \<longrightarrow> Cancel \<notin> set pre) \<and>
       (r = Pending \<longrightarrow> ws' = []) \<and> (\<forall>e. r \<noteq> Raised (Exception e))"
proof (induction fc room ws arbitrary: ev fc' r ws' rule: loop_induct)
  case (pass fc room ws)
  show ?case
  proof (cases "connection_state room = CONN_CONNECTED")
    case False
    with pass.prems have "r = Returned ()" "ws' = ws" by (simp_all add: loop_disconnected)
    then show ?thesis by auto
  next
    case True
    obtain ev1 fc1 r1 ws1 where tb: "try_body fc room ws = (ev1, fc1, r1, ws1)"
      by (cases "try_body fc room ws") auto
    from try_body_consumed[OF tb] obtain pre1 where pre1: "ws = pre1 @ ws1"
      "r1 \<noteq> Raised CancelledError \<longrightarrow> Cancel \<notin> set pre1" "r1 = Pending \<longrightarrow> ws1 = []"
      by blast
    show ?thesis
    proof (cases r1)
      case Pending
      with True tb pass.prems have "r = Pending" "ws' = ws1" by (simp_all add: loop_pending)
      with pre1 Pending show ?thesis by auto
    next
      case (Returned room')
      with True tb pass.prems obtain ev2 where
        rec: "process_video_loop fc1 room' ws1 = (ev2, fc', r, ws')"
        by (auto simp add: loop_returned split: prod.splits)
      from pass.IH(1)[OF True tb[unfolded Returned] rec] obtain pre2 where
        "ws1 = pre2 @ ws'" "r \<noteq> Raised CancelledError \<longrightarrow> Cancel \<notin> set pre2"
        "r = Pending \<longrightarrow> ws' = []" "\<forall>e. r \<noteq> Raised (Exception e)"
        by blast
      with pre1 Returned have "ws = (pre1 @ pre2) @ ws'"
        "r \<noteq> Raised CancelledError \<longrightarrow> Cancel \<notin> set (pre1 @ pre2)"
        by auto
      with \<open>r = Pending \<longrightarrow> ws' = []\<close> \<open>\<forall>e. r \<noteq> Raised (Exception e)\<close>
      show ?thesis by blast
    next
      case (Raised x)
      show ?thesis
      proof (cases x)
        case CancelledError
        with Raised True tb pass.prems have "r = Raised CancelledError" "ws' = ws1"
          by (simp_all add: loop_cancelled)
        with pre1 show ?thesis by auto
      next
        case (Exception e)
        show ?thesis
        proof (cases ws1)
          case Nil
          with Exception Raised True tb pass.prems have "r = Pending" "ws' = []"
            by (simp_all add: loop_error_pending)
          with pre1 Nil Raised Exception show ?thesis by auto
        next
          case (Cons w ws2)
          show ?thesis
          proof (cases w)
            case Cancel
            with Cons Exception Raised True tb pass.prems
            have "r = Raised CancelledError" "ws' = ws2"
              by (simp_all add: loop_error_cancelled)
            with pre1 Cons have "ws = (pre1 @ [w]) @ ws'" by simp
            with \<open>r = Raised CancelledError\<close> show ?thesis by blast
          next
            case (Wake room' v)
            with Cons Exception Raised tb
            have tb': "try_body fc room ws = (ev1, fc1, Raised (Exception e), Wake room' v # ws2)"
              by simp
            with True pass.prems obtain ev2 where
              rec: "process_video_loop fc1 room' ws2 = (ev2, fc', r, ws')"
              by (auto simp add: loop_error_retry split: prod.splits)
            from pass.IH(2)[OF True tb' rec] obtain pre2 where
              "ws2 = pre2 @ ws'" "r \<noteq> Raised CancelledError \<longrightarrow> Cancel \<notin> set pre2"
              "r = Pending \<longrightarrow> ws' = []" "\<forall>e. r \<noteq> Raised (Exception e)"
              by blast
            with pre1 Cons Wake Raised Exception have "ws = (pre1 @ w # pre2) @ ws'"
              "r \<noteq> Raised CancelledError \<longrightarrow> Cancel \<notin> set (pre1 @ w # pre2)"
              by auto
            with \<open>r = Pending \<longrightarrow> ws' = []\<close> \<open>\<forall>e. r \<noteq> Raised (Exception e)\<close>
            show ?thesis by blast
          qed
        qed
      qed
    qed
  qed
qed















section \<open>The entrypoint\<close>

text \<open>A cancelled task is done: run on any resumptions followed by a cancellation, the
  video task has returned or has raised \<^verbatim>\<open>CancelledError\<close>.\<close>

lemma process_video_cancel_done:
  "fst (snd (snd (process_video fc (ws @ [Cancel])))) = Returned () \<or>
   fst (snd (snd (process_video fc (ws @ [Cancel])))) = Raised CancelledError"
proof (cases ws)
  case Nil
  then show ?thesis by (simp add: process_video_def)
next
  case (Cons w ws1)
  show ?thesis
  proof (cases w)
    case Cancel
    with Cons show ?thesis by (simp add: process_video_def)
  next
    case (Wake room v)
    obtain ev fc' r ws' where
      run: "process_video_loop fc room (ws1 @ [Cancel]) = (ev, fc', r, ws')"
      by (cases "process_video_loop fc room (ws1 @ [Cancel])") auto
    from loop_consumed[OF run] obtain pre where pre: "ws1 @ [Cancel] = pre @ ws'"
      "r \<noteq> Raised CancelledError \<longrightarrow> Cancel \<notin> set pre" "r = Pending \<longrightarrow> ws' = []"
      "\<forall>e. r \<noteq> Raised (Exception e)"
      by blast
    have "r \<noteq> Pending"
    proof
      assume p: "r = Pending"
      with pre have "pre = ws1 @ [Cancel]" by simp
      with pre(2) p show False by simp
    qed
    with pre(4) have "r = Returned () \<or> r = Raised CancelledError"
      by (cases r) (auto intro: exc.exhaust)
    with Cons Wake run show ?thesis
      by (auto simp add: process_video_def)
  qed
qed

lemma cancel_and_await_returns: "fst (cancel_and_await fc ws) = Returned ()"
  using process_video_cancel_done[of fc ws]
  by (auto simp add: cancel_and_await_def Let_def)


lemma idle_loop_observes:
  "\<forall>r \<in> set (butlast (room # rs)). connection_state r = CONN_CONNECTED \<Longrightarrow>
   connection_state (last (room # rs)) \<noteq> CONN_CONNECTED \<Longrightarrow>
     idle_loop room (map (\<lambda>r. Wake r ()) rs @ rest) =
       (replicate (length rs) (Sleep 1), Returned ())"
proof (induction rs arbitrary: room)
  case Nil
  then show ?case by (cases "(room, rest)" rule: idle_loop.cases) auto
next
  case (Cons r rs)
  from Cons.prems have "connection_state room = CONN_CONNECTED"
    and "\<forall>r' \<in> set (butlast (r # rs)). connection_state r' = CONN_CONNECTED"
    and "connection_state (last (r # rs)) \<noteq> CONN_CONNECTED"
    by auto
  with Cons.IH[of r] show ?case by simp
qed


lemma entrypoint_through:
  assumes "connect_result env = Returned room0" "start_result env = Returned u"
    "reply_result env = Returned room" "idle_loop room (idle_wakes env) = (ev, r)"
    "r \<noteq> Pending"
  shows "entrypoint env =
     ([CtxConnect, Print (''Room name: '' @ name room0), NewVisionAssistant instructions,
       NewAssistantFunction, VADLoad, NewSTT, NewLLM ''gpt-4o'', NewTTS ''alloy'',
       NewAgentSession, SessionStart, GenerateReply greeting, CreateTask] @ ev @
        [TaskCancel, AwaitTask],
      r, Some (process_video AssistantFunction_init (video_wakes env @ [Cancel])))"
proof -
  obtain fin task where ca: "cancel_and_await (AssistantFunction_init :: 'a AssistantFunction)
      (video_wakes env) = (fin, task)"
    by (cases "cancel_and_await (AssistantFunction_init :: 'a AssistantFunction) (video_wakes env)")
  from cancel_and_await_returns[of "AssistantFunction_init :: 'a AssistantFunction" "video_wakes env"] ca
  have fin: "fin = Returned ()" by simp
  from ca have task: "task = process_video AssistantFunction_init (video_wakes env @ [Cancel])"
    by (simp add: cancel_and_await_def Let_def)
  from assms ca fin task show ?thesis
    by (cases r) (simp_all add: entrypoint_def Let_def)
qed





text \<open>
  C4. The \<^verbatim>\<open>finally\<close> suite (cancel the video task, await it, swallow
  \<^verbatim>\<open>CancelledError\<close>) always completes and raises nothing, in whatever state the task
  is: the awaited task has returned or has raised \<^verbatim>\<open>CancelledError\<close>, never anything
  else, and is never left pending. So when the idle loop finds the room no longer
  connected (after \<open>length rs\<close> sleeps, or at its first test), \<^verbatim>\<open>entrypoint\<close> cancels
  the task, awaits it and returns normally.
\<close>

theorem entrypoint_shutdown:
  "fst (cancel_and_await fc ws) = Returned ()
   \<and> (fst (snd (snd (snd (cancel_and_await fc ws)))) = Returned () \<or>
       fst (snd (snd (snd (cancel_and_await fc ws)))) = Raised CancelledError)
   \<and> (connect_result env = Returned room0 \<and> start_result env = Returned () \<and>
       reply_result env = Returned room \<and>
       idle_wakes env = map (\<lambda>r. Wake r ()) rs @ rest \<and>
       (\<forall>r \<in> set (butlast (room # rs)). connection_state r = CONN_CONNECTED) \<and>
       connection_state (last (room # rs)) \<noteq> CONN_CONNECTED \<longrightarrow>
         (\<exists>evs. fst (entrypoint env) =
            evs @ [CreateTask] @ replicate (length rs) (Sleep 1) @ [TaskCancel, AwaitTask])
         \<and> fst (snd (entrypoint env)) = Returned ()
         \<and> snd (snd (entrypoint env)) =
             Some (process_video AssistantFunction_init (video_wakes env @ [Cancel])))"
proof (intro conjI impI)
  show "fst (cancel_and_await fc ws) = Returned ()"
    by (rule cancel_and_await_returns)
next
  show "fst (snd (snd (snd (cancel_and_await fc ws)))) = Returned () \<or>
       fst (snd (snd (snd (cancel_and_await fc ws)))) = Raised CancelledError"
    using process_video_cancel_done[of fc ws] by (simp add: cancel_and_await_def Let_def)
next
  assume a: "connect_result env = Returned room0 \<and> start_result env = Returned () \<and>
       reply_result env = Returned room \<and>
       idle_wakes env = map (\<lambda>r. Wake r ()) rs @ rest \<and>
       (\<forall>r \<in> set (butlast (room # rs)). connection_state r = CONN_CONNECTED) \<and>
       connection_state (last (room # rs)) \<noteq> CONN_CONNECTED"
  then have idle: "idle_loop room (idle_wakes env) = (replicate (length rs) (Sleep 1), Returned ())"
    using idle_loop_observes[of room rs rest] by simp
  from a have "connect_result env = Returned room0" "start_result env = Returned ()"
    "reply_result env = Returned room" by simp_all
  note run = entrypoint_through[OF this idle]
  have "fst (entrypoint env) =
      [CtxConnect, Print (''Room name: '' @ name room0), NewVisionAssistant instructions,
       NewAssistantFunction, VADLoad, NewSTT, NewLLM ''gpt-4o'', NewTTS ''alloy'',
       NewAgentSession, SessionStart, GenerateReply greeting] @ [CreateTask] @
      replicate (length rs) (Sleep 1) @ [TaskCancel, AwaitTask]"
    using run by simp
  then show "\<exists>evs. fst (entrypoint env) =
            evs @ [CreateTask] @ replicate (length rs) (Sleep 1) @ [TaskCancel, AwaitTask]"
    by blast
  show "fst (snd (entrypoint env)) = Returned ()" using run by simp
  show "snd (snd (entrypoint env)) =
             Some (process_video AssistantFunction_init (video_wakes env @ [Cancel]))"
    using run by simp
qed

theorem entrypoint_shutdown_witness:
  "fst (snd (entrypoint example_env)) = Returned ()
   \<and> snd (snd (entrypoint example_env)) =
       Some ([Print ''Using video track TR_V'', Print ''Starting video stream processing...''],
             \<lparr>tools = [], latest_image = Some 5\<rparr>, Raised CancelledError, [])"
proof -
  have "connect_result example_env = Returned empty_room \<and>
       start_result example_env = Returned () \<and>
       reply_result example_env = Returned video_room \<and>
       idle_wakes example_env = map (\<lambda>r. Wake r ()) [video_room, disconnected_room] @ [] \<and>
       (\<forall>r \<in> set (butlast (video_room # [video_room, disconnected_room])).
          connection_state r = CONN_CONNECTED) \<and>
       connection_state (last (video_room # [video_room, disconnected_room])) \<noteq> CONN_CONNECTED"
    by (simp add: example_env_def video_room_def disconnected_room_def)
  with entrypoint_shutdown[of _ _ example_env empty_room video_room
      "[video_room, disconnected_room]" "[]"]
  have "fst (snd (entrypoint example_env)) = Returned ()"
    and "snd (snd (entrypoint example_env)) =
             Some (process_video AssistantFunction_init (video_wakes example_env @ [Cancel]))"
    by blast+
  moreover have "process_video (AssistantFunction_init :: nat AssistantFunction)
      (video_wakes example_env @ [Cancel]) =
       ([Print ''Using video track TR_V'', Print ''Starting video stream processing...''],
             \<lparr>tools = [], latest_image = Some 5\<rparr>, Raised CancelledError, [])"
    by (simp add: process_video_def process_video_loop.simps try_body_def get_video_track_def
        example_env_def video_room_def eval_nat_numeral update_image_def
        AssistantFunction_init_def)
  ultimately show ?thesis by simp
qed



end
